theory Spec2Isabelle
  imports Main "HOL-Library.Char_ord" "HOL-Library.List_Lexorder" "HOL-Library.State_Monad"
begin

section \<open>Configuration of the Cypher Graph exporter\<close>

text \<open>
  The development embeds \<^verbatim>\<open>otelcol-custom/exporter/cyphergraphexporter/config.go\<close>:
  the constants, the table of default resource mappers, the \<^verbatim>\<open>Config\<close> structure and
  its method \<^verbatim>\<open>Validate\<close>. Go strings are byte sequences; they are modelled as
  \<^typ>\<open>string\<close>, whose characters are bytes.
\<close>

subsection \<open>The helpers of package \<^verbatim>\<open>strings\<close> that \<^verbatim>\<open>net/url\<close> calls\<close>

definition HasPrefix :: "string \<Rightarrow> string \<Rightarrow> bool" where
  "HasPrefix s p = (take (length p) s = p)"

definition HasSuffix :: "string \<Rightarrow> string \<Rightarrow> bool" where
  "HasSuffix s p = (length p \<le> length s \<and> drop (length s - length p) s = p)"

text \<open>\<^verbatim>\<open>strings.Index(s, sub)\<close>: the position of the first occurrence, \<^verbatim>\<open>-1\<close> as \<open>None\<close>.\<close>

fun Index :: "string \<Rightarrow> string \<Rightarrow> nat option" where
  "Index [] sub = (if sub = [] then Some 0 else None)"
| "Index (c # s) sub =
     (if HasPrefix (c # s) sub then Some 0 else map_option Suc (Index s sub))"

text \<open>\<^verbatim>\<open>strings.LastIndex(s, sep)\<close> for a separator of one byte, as every call here has.\<close>

definition LastIndex :: "string \<Rightarrow> char \<Rightarrow> nat option" where
  "LastIndex s sep =
     (case Index (rev s) [sep] of None \<Rightarrow> None | Some j \<Rightarrow> Some (length s - 1 - j))"

definition Contains :: "string \<Rightarrow> string \<Rightarrow> bool" where
  "Contains s sub = (Index s sub \<noteq> None)"

text \<open>\<^verbatim>\<open>strings.Count(s, sep)\<close> for a separator of one byte.\<close>

definition Count :: "string \<Rightarrow> char \<Rightarrow> nat" where
  "Count s sep = length (filter (\<lambda>c. c = sep) s)"

text \<open>\<^verbatim>\<open>strings.Cut(s, sep)\<close> for a separator of one byte: before, after, found.\<close>

definition Cut :: "string \<Rightarrow> char \<Rightarrow> string \<times> string \<times> bool" where
  "Cut s sep =
     (case Index s [sep] of
        None \<Rightarrow> (s, [], False)
      | Some i \<Rightarrow> (take i s, drop (Suc i) s, True))"

subsection \<open>Package \<^verbatim>\<open>net/url\<close> of the Go standard library: \<^verbatim>\<open>Parse\<close>\<close>

text \<open>
  \<^verbatim>\<open>Validate\<close> calls \<^verbatim>\<open>url.Parse\<close> and reads only the error it returns. The functions
  below follow \<^verbatim>\<open>net/url/url.go\<close> of Go 1.21 and compute that error: every check that
  can fail is kept, in the order of the library; the fields of the parsed \<^verbatim>\<open>URL\<close>, which
  \<^verbatim>\<open>Validate\<close> discards, are not built.
\<close>

datatype url_err =
    ErrInvalidControlCharacter  \<comment> \<open>\<^verbatim>\<open>net/url: invalid control character in URL\<close>\<close>
  | ErrEmptyURL  \<comment> \<open>\<^verbatim>\<open>empty url\<close>\<close>
  | ErrMissingProtocolScheme  \<comment> \<open>\<^verbatim>\<open>missing protocol scheme\<close>\<close>
  | ErrInvalidURIForRequest  \<comment> \<open>\<^verbatim>\<open>invalid URI for request\<close>\<close>
  | ErrFirstPathSegmentColon  \<comment> \<open>\<^verbatim>\<open>first path segment in URL cannot contain colon\<close>\<close>
  | ErrMissingBracket  \<comment> \<open>\<^verbatim>\<open>missing ']' in host\<close>\<close>
  | ErrInvalidPort string  \<comment> \<open>\<^verbatim>\<open>invalid port %q after host\<close>\<close>
  | ErrInvalidUserinfo  \<comment> \<open>\<^verbatim>\<open>net/url: invalid userinfo\<close>\<close>
  | EscapeError string
  | InvalidHostError string

datatype encoding =
    encodePath | encodePathSegment | encodeHost | encodeZone
  | encodeUserPassword | encodeQueryComponent | encodeFragment

definition isalnum :: "char \<Rightarrow> bool" where
  "isalnum c =
     ((CHR ''a'' \<le> c \<and> c \<le> CHR ''z'') \<or> (CHR ''A'' \<le> c \<and> c \<le> CHR ''Z'')
      \<or> (CHR ''0'' \<le> c \<and> c \<le> CHR ''9''))"

definition ishex :: "char \<Rightarrow> bool" where
  "ishex c =
     ((CHR ''0'' \<le> c \<and> c \<le> CHR ''9'') \<or> (CHR ''a'' \<le> c \<and> c \<le> CHR ''f'')
      \<or> (CHR ''A'' \<le> c \<and> c \<le> CHR ''F''))"

definition unhex :: "char \<Rightarrow> nat" where
  "unhex c =
     (if (CHR ''0'' \<le> c \<and> c \<le> CHR ''9'') then of_char c - of_char CHR ''0''
      else if (CHR ''a'' \<le> c \<and> c \<le> CHR ''f'') then of_char c - of_char CHR ''a'' + 10
      else if (CHR ''A'' \<le> c \<and> c \<le> CHR ''F'') then of_char c - of_char CHR ''A'' + 10
      else 0)"

text \<open>
  \<^verbatim>\<open>shouldEscape(c, mode)\<close>. The inner switch on the reserved characters has no case for
  the modes \<^verbatim>\<open>encodeHost\<close> and \<^verbatim>\<open>encodeZone\<close>; control then leaves both switches and
  reaches the final \<^verbatim>\<open>return true\<close>.
\<close>

definition shouldEscape :: "char \<Rightarrow> encoding \<Rightarrow> bool" where
  "shouldEscape c mode =
     (if isalnum c then False
      else if (mode = encodeHost \<or> mode = encodeZone)
              \<and> (c \<in> set ''!$&()*+,;=:[]<>'' \<or> c = CHR 0x27 \<or> c = CHR 0x22)
        then False
      else if c \<in> set ''-_.~'' then False
      else if c \<in> set ''$&+,/:;=?@'' \<and> mode = encodePath then c = CHR ''?''
      else if c \<in> set ''$&+,/:;=?@'' \<and> mode = encodePathSegment
        then c = CHR ''/'' \<or> c = CHR '';'' \<or> c = CHR '','' \<or> c = CHR ''?''
      else if c \<in> set ''$&+,/:;=?@'' \<and> mode = encodeUserPassword
        then c = CHR ''@'' \<or> c = CHR ''/'' \<or> c = CHR ''?'' \<or> c = CHR '':''
      else if c \<in> set ''$&+,/:;=?@'' \<and> mode = encodeQueryComponent then True
      else if c \<in> set ''$&+,/:;=?@'' \<and> mode = encodeFragment then False
      else if mode = encodeFragment \<and> c \<in> set ''!()*'' then False
      else True)"

text \<open>
  \<^verbatim>\<open>unescape(s, mode)\<close>, the error it returns (\<open>None\<close> is \<^verbatim>\<open>nil\<close>). The loop index
  advances by three bytes after a well-formed escape and by one byte otherwise, so
  the recursion is on the rest of the string.
\<close>

fun unescape :: "string \<Rightarrow> encoding \<Rightarrow> url_err option" where
  "unescape [] mode = None"
| "unescape (c # s) mode =
     (if c = CHR ''%'' then
        (case s of
           h1 # h2 # s' \<Rightarrow>
             if \<not> ishex h1 \<or> \<not> ishex h2 then Some (EscapeError (take 3 (c # s)))
             else if mode = encodeHost \<and> unhex h1 < 8 \<and> [c, h1, h2] \<noteq> ''%25''
               then Some (EscapeError [c, h1, h2])
             else if mode = encodeZone \<and> [c, h1, h2] \<noteq> ''%25''
                     \<and> char_of (unhex h1 * 16 + unhex h2) \<noteq> CHR '' ''
                     \<and> shouldEscape (char_of (unhex h1 * 16 + unhex h2)) encodeHost
               then Some (EscapeError [c, h1, h2])
             else unescape s' mode
         | _ \<Rightarrow> Some (EscapeError (take 3 (c # s))))
      else if c = CHR ''+'' then unescape s mode
      else if (mode = encodeHost \<or> mode = encodeZone) \<and> c < CHR 0x80
              \<and> shouldEscape c encodeHost
        then Some (InvalidHostError [c])
      else unescape s mode)"

text \<open>\<^verbatim>\<open>getScheme(rawURL)\<close>: the loop over the bytes carries the index \<open>i\<close>.\<close>

fun getScheme_loop :: "string \<Rightarrow> nat \<Rightarrow> string \<Rightarrow> url_err + (string \<times> string)" where
  "getScheme_loop rawURL i [] = Inr ([], rawURL)"
| "getScheme_loop rawURL i (c # cs) =
     (if (CHR ''a'' \<le> c \<and> c \<le> CHR ''z'') \<or> (CHR ''A'' \<le> c \<and> c \<le> CHR ''Z'')
        then getScheme_loop rawURL (Suc i) cs
      else if (CHR ''0'' \<le> c \<and> c \<le> CHR ''9'')
              \<or> c = CHR ''+'' \<or> c = CHR ''-'' \<or> c = CHR ''.''
        then (if i = 0 then Inr ([], rawURL) else getScheme_loop rawURL (Suc i) cs)
      else if c = CHR '':''
        then (if i = 0 then Inl ErrMissingProtocolScheme
              else Inr (take i rawURL, drop (Suc i) rawURL))
      else Inr ([], rawURL))"

definition getScheme :: "string \<Rightarrow> url_err + (string \<times> string)" where
  "getScheme rawURL = getScheme_loop rawURL 0 rawURL"

definition stringContainsCTLByte :: "string \<Rightarrow> bool" where
  "stringContainsCTLByte s = list_ex (\<lambda>b. b < CHR '' '' \<or> b = CHR 0x7F) s"

definition validOptionalPort :: "string \<Rightarrow> bool" where
  "validOptionalPort port =
     (case port of
        [] \<Rightarrow> True
      | c # ds \<Rightarrow>
          if c \<noteq> CHR '':'' then False
          else list_all (\<lambda>b. \<not> (b < CHR ''0'' \<or> CHR ''9'' < b)) ds)"

definition validUserinfo :: "string \<Rightarrow> bool" where
  "validUserinfo s =
     list_all (\<lambda>r. isalnum r \<or> r \<in> set ''-._:~!$&()*+,;=%@'' \<or> r = CHR 0x27) s"

definition parseHost :: "string \<Rightarrow> url_err option" where
  "parseHost host =
     (if HasPrefix host ''['' then
        (case LastIndex host CHR '']'' of
           None \<Rightarrow> Some ErrMissingBracket
         | Some i \<Rightarrow>
             if \<not> validOptionalPort (drop (Suc i) host)
               then Some (ErrInvalidPort (drop (Suc i) host))
             else
               (case Index (take i host) ''%25'' of
                  Some zone \<Rightarrow>
                    (case unescape (take zone host) encodeHost of
                       Some e \<Rightarrow> Some e
                     | None \<Rightarrow>
                         (case unescape (drop zone (take i host)) encodeZone of
                            Some e \<Rightarrow> Some e
                          | None \<Rightarrow> unescape (drop i host) encodeHost))
                | None \<Rightarrow> unescape host encodeHost))
      else
        (case LastIndex host CHR '':'' of
           Some i \<Rightarrow>
             if \<not> validOptionalPort (drop i host) then Some (ErrInvalidPort (drop i host))
             else unescape host encodeHost
         | None \<Rightarrow> unescape host encodeHost))"

definition parseAuthority :: "string \<Rightarrow> url_err option" where
  "parseAuthority authority =
     (case LastIndex authority CHR ''@'' of
        None \<Rightarrow> parseHost authority
      | Some i \<Rightarrow>
          (case parseHost (drop (Suc i) authority) of
             Some e \<Rightarrow> Some e
           | None \<Rightarrow>
               let userinfo = take i authority in
               if \<not> validUserinfo userinfo then Some ErrInvalidUserinfo
               else if \<not> Contains userinfo '':'' then unescape userinfo encodeUserPassword
               else
                 (case Cut userinfo CHR '':'' of
                    (username, password, _) \<Rightarrow>
                      (case unescape username encodeUserPassword of
                         Some e \<Rightarrow> Some e
                       | None \<Rightarrow> unescape password encodeUserPassword))))"

definition setPath :: "string \<Rightarrow> url_err option" where
  "setPath p = unescape p encodePath"

definition setFragment :: "string \<Rightarrow> url_err option" where
  "setFragment f = unescape f encodeFragment"

text \<open>\<^verbatim>\<open>parse(rawURL, viaRequest)\<close>.\<close>

definition parse :: "string \<Rightarrow> bool \<Rightarrow> url_err option" where
  "parse rawURL viaRequest =
     (if stringContainsCTLByte rawURL then Some ErrInvalidControlCharacter
      else if rawURL = [] \<and> viaRequest then Some ErrEmptyURL
      else if rawURL = ''*'' then None
      else
        (case getScheme rawURL of
           Inl e \<Rightarrow> Some e
         | Inr (scheme, rest0) \<Rightarrow>
             let rest = (if HasSuffix rest0 ''?'' \<and> Count rest0 CHR ''?'' = 1
                         then take (length rest0 - 1) rest0
                         else fst (Cut rest0 CHR ''?''))
             in
               if \<not> HasPrefix rest ''/'' \<and> scheme \<noteq> [] then None
               else if \<not> HasPrefix rest ''/'' \<and> viaRequest then Some ErrInvalidURIForRequest
               else if \<not> HasPrefix rest ''/'' \<and> Contains (fst (Cut rest CHR ''/'')) '':''
                 then Some ErrFirstPathSegmentColon
               else if (scheme \<noteq> [] \<or> \<not> viaRequest \<and> \<not> HasPrefix rest ''///'')
                       \<and> HasPrefix rest ''//''
                 then
                   (let authority0 = drop 2 rest;
                        authority = (case Index authority0 ''/'' of
                                       Some i \<Rightarrow> take i authority0 | None \<Rightarrow> authority0);
                        rest' = (case Index authority0 ''/'' of
                                   Some i \<Rightarrow> drop i authority0 | None \<Rightarrow> [])
                    in case parseAuthority authority of
                         Some e \<Rightarrow> Some e
                       | None \<Rightarrow> setPath rest')
               else setPath rest))"

subsection \<open>Errors\<close>

text \<open>
  A Go \<^verbatim>\<open>error\<close> returned by \<^verbatim>\<open>Validate\<close> is either the package variable
  \<^verbatim>\<open>errMultipleAuthMethod\<close> or the \<^verbatim>\<open>*url.Error{Op, URL, Err}\<close> built by \<^verbatim>\<open>url.Parse\<close>.
\<close>

datatype error =
    errMultipleAuthMethod  \<comment> \<open>\<^verbatim>\<open>cannot mix multiple authentication methods\<close>\<close>
  | url_Error string string url_err

text \<open>
  \<^verbatim>\<open>url.Parse(rawURL)\<close>: the fragment is cut off at the first \<^verbatim>\<open>#\<close>, the rest is parsed,
  then the fragment is unescaped. An error of the first step carries the URL without
  its fragment, an error of the second the whole URL.
\<close>

definition url_Parse :: "string \<Rightarrow> error option" where
  "url_Parse rawURL =
     (case Cut rawURL CHR ''#'' of
        (u, frag, _) \<Rightarrow>
          (case parse u False of
             Some err \<Rightarrow> Some (url_Error ''parse'' u err)
           | None \<Rightarrow>
               if frag = [] then None
               else (case setFragment frag of
                       Some err \<Rightarrow> Some (url_Error ''parse'' rawURL err)
                     | None \<Rightarrow> None)))"

subsection \<open>\<^verbatim>\<open>config.go\<close>\<close>

definition defaultDatabaseURI :: string where
  "defaultDatabaseURI = ''bolt://localhost:7687''"

definition defaultUserAgent :: string where
  "defaultUserAgent = ''opentelemetrycollector.cyphergraphexporter''"

record ResourceMapper =
  LabelID :: string
  OtherLabels :: "string list"

text \<open>
  \<^verbatim>\<open>Config\<close>. The embedded \<^verbatim>\<open>configretry.BackOffConfig\<close> is a structure of the collector
  library; its type is a parameter. \<^verbatim>\<open>configopaque.String\<close> is a string type.
\<close>

record 'r Config =
  BackOffConfig :: 'r
  DatabaseURI :: string
  Username :: string
  Password :: string
  BearerToken :: string
  KerberosTicket :: string
  UserAgent :: string
  ResourceMappers :: "string \<rightharpoonup> ResourceMapper"

definition Validate :: "'r Config \<Rightarrow> error option" where
  "Validate cfg =
     (case url_Parse (DatabaseURI cfg) of
        Some err \<Rightarrow> Some err
      | None \<Rightarrow>
          if Username cfg \<noteq> [] \<and> (BearerToken cfg \<noteq> [] \<or> KerberosTicket cfg \<noteq> [])
            then Some errMultipleAuthMethod
          else if BearerToken cfg \<noteq> [] \<and> KerberosTicket cfg \<noteq> []
            then Some errMultipleAuthMethod
          else None)"


text \<open>
  \<^verbatim>\<open>Validate\<close> has a pointer receiver, so a call could write to the \<^verbatim>\<open>Config\<close> it
  designates. A call is therefore a computation on the state the method can reach:
  the receiver, and the network, recorded as the list of addresses to which a
  connection has been attempted. A statement of a method on \<^verbatim>\<open>*Config\<close> reads a field
  of the receiver (\<open>load\<close>), assigns to one (\<open>store\<close>), or attempts a connection
  (\<open>dial\<close>).
\<close>

record 'r world =
  receiver :: "'r Config"
  dialled :: "string list"

definition load :: "('r Config \<Rightarrow> 'a) \<Rightarrow> ('r world, 'a) state" where
  "load field = State (\<lambda>w. (field (receiver w), w))"

definition store :: "('r Config \<Rightarrow> 'r Config) \<Rightarrow> ('r world, unit) state" where
  "store assign = State (\<lambda>w. ((), w\<lparr>receiver := assign (receiver w)\<rparr>))"

definition dial :: "string \<Rightarrow> ('r world, unit) state" where
  "dial address = State (\<lambda>w. ((), w\<lparr>dialled := dialled w @ [address]\<rparr>))"

text \<open>
  The body of \<^verbatim>\<open>Validate\<close>, statement by statement: each \<^verbatim>\<open>if\<close> loads the fields its
  condition names, \<^verbatim>\<open>url.Parse\<close> is a function on strings, and each \<^verbatim>\<open>return\<close> ends the
  call with its value.
\<close>

definition Validate_call :: "('r world, error option) state" where
  "Validate_call = do {
     uri \<leftarrow> load DatabaseURI;
     case url_Parse uri of
       Some err \<Rightarrow> State_Monad.return (Some err)
     | None \<Rightarrow> do {
         username \<leftarrow> load Username;
         bearerToken \<leftarrow> load BearerToken;
         kerberosTicket \<leftarrow> load KerberosTicket;
         if username \<noteq> [] \<and> (bearerToken \<noteq> [] \<or> kerberosTicket \<noteq> [])
           then State_Monad.return (Some errMultipleAuthMethod)
         else do {
           bearerToken \<leftarrow> load BearerToken;
           kerberosTicket \<leftarrow> load KerberosTicket;
           if bearerToken \<noteq> [] \<and> kerberosTicket \<noteq> []
             then State_Monad.return (Some errMultipleAuthMethod)
           else State_Monad.return None
         }
       }
   }"

text \<open>
  How many of the three credential fields that \<^verbatim>\<open>Validate\<close> reads are non-empty.
\<close>

definition credential_count :: "'r Config \<Rightarrow> nat" where
  "credential_count cfg =
     length (filter (\<lambda>s. s \<noteq> []) [Username cfg, BearerToken cfg, KerberosTicket cfg])"

text \<open>The scheme families that the comment on \<^verbatim>\<open>DatabaseURI\<close> lists.\<close>

definition supported_schemes :: "string list" where
  "supported_schemes = [''bolt'', ''bolt+s'', ''bolt+ssc'', ''neo4j'', ''neo4j+s'', ''neo4j+ssc'']"

text \<open>
  The addresses of the shape \<^verbatim>\<open>scheme://host:port\<close> that the theorems on the supported
  schemes range over: a host name of letters, digits, dots and hyphens, and a port of
  decimal digits.
\<close>

definition hostname_char :: "char \<Rightarrow> bool" where
  "hostname_char c = (isalnum c \<or> c = CHR ''.'' \<or> c = CHR ''-'')"

definition isdigit :: "char \<Rightarrow> bool" where
  "isdigit c = (\<not> (c < CHR ''0'' \<or> CHR ''9'' < c))"

subsection \<open>The default resource mappers\<close>

text \<open>
  The attribute keys of \<^verbatim>\<open>go.opentelemetry.io/otel/semconv/v1.24.0\<close> that the table
  uses, with the values that package gives them.
\<close>

definition ServiceNameKey :: string where "ServiceNameKey = ''service.name''"
definition ServiceVersionKey :: string where "ServiceVersionKey = ''service.version''"
definition ServiceInstanceIDKey :: string where "ServiceInstanceIDKey = ''service.instance.id''"
definition ServiceNamespaceKey :: string where "ServiceNamespaceKey = ''service.namespace''"
definition ContainerIDKey :: string where "ContainerIDKey = ''container.id''"
definition ContainerNameKey :: string where "ContainerNameKey = ''container.name''"
definition ContainerImageIDKey :: string where "ContainerImageIDKey = ''container.image.id''"
definition ContainerImageNameKey :: string where "ContainerImageNameKey = ''container.image.name''"
definition HostIDKey :: string where "HostIDKey = ''host.id''"
definition HostNameKey :: string where "HostNameKey = ''host.name''"
definition HostImageIDKey :: string where "HostImageIDKey = ''host.image.id''"
definition HostImageNameKey :: string where "HostImageNameKey = ''host.image.name''"
definition HostIPKey :: string where "HostIPKey = ''host.ip''"
definition HostTypeKey :: string where "HostTypeKey = ''host.type''"
definition DeploymentEnvironmentKey :: string where
  "DeploymentEnvironmentKey = ''deployment.environment''"
definition K8SClusterUIDKey :: string where "K8SClusterUIDKey = ''k8s.cluster.uid''"
definition K8SClusterNameKey :: string where "K8SClusterNameKey = ''k8s.cluster.name''"
definition K8SNodeNameKey :: string where "K8SNodeNameKey = ''k8s.node.name''"
definition K8SNodeUIDKey :: string where "K8SNodeUIDKey = ''k8s.node.uid''"
definition K8SPodUIDKey :: string where "K8SPodUIDKey = ''k8s.pod.uid''"
definition K8SPodNameKey :: string where "K8SPodNameKey = ''k8s.pod.name''"

text \<open>
  \<^verbatim>\<open>defaultResourcesMappers\<close>: the entries of the map literal, in the order of the
  source. The Go map is the lookup \<open>map_of\<close> in this list; an entry without
  \<^verbatim>\<open>OtherLabels\<close> has the nil slice.
\<close>

definition defaultResourcesMappers :: "(string \<times> ResourceMapper) list" where
  "defaultResourcesMappers =
     [(''service'',
         \<lparr>LabelID = ServiceNameKey,
          OtherLabels = [ServiceVersionKey, ServiceInstanceIDKey, ServiceNamespaceKey]\<rparr>),
      (''container'',
         \<lparr>LabelID = ContainerIDKey, OtherLabels = [ContainerNameKey]\<rparr>),
      (''container.image'',
         \<lparr>LabelID = ContainerImageIDKey, OtherLabels = [ContainerImageNameKey]\<rparr>),
      (''host'',
         \<lparr>LabelID = HostIDKey,
          OtherLabels = [HostNameKey, HostImageIDKey, HostImageNameKey, HostIPKey, HostTypeKey]\<rparr>),
      (''deployment'',
         \<lparr>LabelID = DeploymentEnvironmentKey, OtherLabels = []\<rparr>),
      (''k8s.cluster'',
         \<lparr>LabelID = K8SClusterUIDKey, OtherLabels = [K8SClusterNameKey]\<rparr>),
      (''k8s.node'',
         \<lparr>LabelID = K8SNodeNameKey, OtherLabels = [K8SNodeUIDKey]\<rparr>),
      (''k8s.pod'',
         \<lparr>LabelID = K8SPodUIDKey, OtherLabels = [K8SPodNameKey]\<rparr>)]"

section \<open>The resource mapper registry\<close>

text \<open>
  A \<^verbatim>\<open>Resource\<close> is a mapping from attribute keys to values, read here in their
  string form. A registry is a mapping from label names to mappers, held as the list
  of its entries.
\<close>

type_synonym Resource = "string \<rightharpoonup> string"

text \<open>
  Modelled from the spec: the applicability test of section 4.2, whose code is not
  among the sources. A mapper is applicable to a Resource iff the Resource contains a
  non-empty value for the mapper's \<^verbatim>\<open>LabelID\<close>.
\<close>

definition applicable :: "Resource \<Rightarrow> ResourceMapper \<Rightarrow> bool" where
  "applicable resource m =
     (case resource (LabelID m) of None \<Rightarrow> False | Some v \<Rightarrow> v \<noteq> [])"

text \<open>
  Modelled from the spec: the operation \<^verbatim>\<open>ApplicableMappers\<close> of section 4.2, whose
  code is not among the sources. The entries of the registry are visited in the
  order of their label names; an entry whose mapper is not applicable is skipped, and
  no case is an error.
\<close>

definition ApplicableMappers ::
    "(string \<times> ResourceMapper) list \<Rightarrow> Resource \<Rightarrow> (string \<times> ResourceMapper) list" where
  "ApplicableMappers registry resource =
     filter (\<lambda>(label, m). applicable resource m) (sort_key fst registry)"

section \<open>The retry loop\<close>

text \<open>
  Modelled from the spec: the parameters of section 4.4, whose code is not among the
  sources (\<^verbatim>\<open>config.go\<close> only embeds the library's \<^verbatim>\<open>BackOffConfig\<close>). Times are
  counted in units of a clock.
\<close>

record RetryPolicy =
  InitialInterval :: nat
  Multiplier :: nat
  MaxInterval :: nat
  MaxElapsedTime :: nat

datatype outcome = Success | TransientFailure | TerminalFailure

datatype retry_result =
    Succeeded
  | ReportTerminalFailure
  | Retrying  \<comment> \<open>the attempts given are used up and the loop would attempt again\<close>

text \<open>
  Modelled from the spec: the backoff loop of section 4.4, whose code is not among the
  sources, as the state machine of section 9 over the elapsed time and the current
  interval. Its input is the list of attempts, each with the time it took and its
  outcome. On a transient failure: if the elapsed time since the first attempt
  exceeds the maximum, the loop stops and reports terminal failure; otherwise it
  sleeps for \<open>min interval MaxInterval\<close>, multiplies the interval by the multiplier
  and retries. With this test the example of section 8 holds: the loop sleeps 1, 2,
  4, 8 until the elapsed time exceeds 10. A terminal failure is reported at once.
  The result comes with the list of the sleeps made.
\<close>

fun retry_loop ::
    "RetryPolicy \<Rightarrow> nat \<Rightarrow> nat \<Rightarrow> (nat \<times> outcome) list \<Rightarrow> retry_result \<times> nat list" where
  "retry_loop p elapsed interval [] = (Retrying, [])"
| "retry_loop p elapsed interval ((d, Success) # rest) = (Succeeded, [])"
| "retry_loop p elapsed interval ((d, TerminalFailure) # rest) = (ReportTerminalFailure, [])"
| "retry_loop p elapsed interval ((d, TransientFailure) # rest) =
     (if elapsed + d > MaxElapsedTime p
        then (ReportTerminalFailure, [])
      else
        (case retry_loop p (elapsed + d + min interval (MaxInterval p))
                (interval * Multiplier p) rest of
           (r, sleeps) \<Rightarrow> (r, min interval (MaxInterval p) # sleeps)))"

definition retry :: "RetryPolicy \<Rightarrow> (nat \<times> outcome) list \<Rightarrow> retry_result \<times> nat list" where
  "retry p attempts = retry_loop p 0 (InitialInterval p) attempts"

text \<open>A run of \<open>n\<close> consecutive transient failures, each attempt taking no time.\<close>

definition transient_failures :: "nat \<Rightarrow> (nat \<times> outcome) list" where
  "transient_failures n = replicate n (0, TransientFailure)"

section \<open>Properties of \<^verbatim>\<open>Validate\<close>\<close>

subsection \<open>The credential checks\<close>

lemma credential_count_gt1:
  "(Suc 0 < credential_count cfg) =
     (Username cfg \<noteq> [] \<and> (BearerToken cfg \<noteq> [] \<or> KerberosTicket cfg \<noteq> [])
      \<or> BearerToken cfg \<noteq> [] \<and> KerberosTicket cfg \<noteq> [])"
  by (simp add: credential_count_def)

lemma credential_count_le1:
  "(credential_count cfg \<le> Suc 0) =
     (\<not> (Username cfg \<noteq> [] \<and> (BearerToken cfg \<noteq> [] \<or> KerberosTicket cfg \<noteq> [])
      \<or> BearerToken cfg \<noteq> [] \<and> KerberosTicket cfg \<noteq> []))"
  using credential_count_gt1 [of cfg] by (simp only: not_less [symmetric])

lemma Validate_parsed:
  "url_Parse (DatabaseURI cfg) = None \<Longrightarrow>
   Validate cfg = (if 1 < credential_count cfg then Some errMultipleAuthMethod else None)"
  by (simp add: Validate_def credential_count_gt1)

lemma Validate_unparsed:
  "url_Parse (DatabaseURI cfg) = Some e \<Longrightarrow> Validate cfg = Some e"
  by (simp add: Validate_def)

lemma url_Parse_default: "url_Parse ''bolt://localhost:7687'' = None"
  by code_simp

lemma url_Parse_empty: "url_Parse [] = None"
  by code_simp

text \<open>
  \<^bold>\<open>C1.\<close> For every Config whose database URI parses, \<^verbatim>\<open>Validate\<close> returns
  \<^verbatim>\<open>errMultipleAuthMethod\<close> if more than one of the username, the bearer token and
  the kerberos ticket is non-empty, and nil if at most one of them is. More than one
  is non-empty exactly when the username is set together with either token form, or
  both token forms are set.
\<close>

theorem Validate_conflicting_credentials:
  assumes "url_Parse (DatabaseURI cfg) = None"
  shows "Validate cfg = (if 1 < credential_count cfg then Some errMultipleAuthMethod else None)
       \<and> ((1 < credential_count cfg) =
            (Username cfg \<noteq> [] \<and> (BearerToken cfg \<noteq> [] \<or> KerberosTicket cfg \<noteq> [])
             \<or> BearerToken cfg \<noteq> [] \<and> KerberosTicket cfg \<noteq> []))"
  using assms by (simp add: Validate_parsed credential_count_gt1)

theorem Validate_conflicting_credentials_witness:
  "url_Parse (DatabaseURI \<lparr>BackOffConfig = (), DatabaseURI = ''bolt://localhost:7687'',
      Username = ''neo4j'', Password = ''secret'', BearerToken = ''token'',
      KerberosTicket = [], UserAgent = [], ResourceMappers = Map.empty\<rparr>) = None
   \<and> Validate \<lparr>BackOffConfig = (), DatabaseURI = ''bolt://localhost:7687'',
      Username = ''neo4j'', Password = ''secret'', BearerToken = ''token'',
      KerberosTicket = [], UserAgent = [], ResourceMappers = Map.empty\<rparr>
     = Some errMultipleAuthMethod
   \<and> Validate \<lparr>BackOffConfig = (), DatabaseURI = ''bolt://localhost:7687'',
      Username = ''neo4j'', Password = ''secret'', BearerToken = [],
      KerberosTicket = [], UserAgent = [], ResourceMappers = Map.empty\<rparr>
     = None"
  using
    Validate_conflicting_credentials [of "\<lparr>BackOffConfig = (),
      DatabaseURI = ''bolt://localhost:7687'',
      Username = ''neo4j'', Password = ''secret'', BearerToken = ''token'',
      KerberosTicket = [], UserAgent = [], ResourceMappers = Map.empty\<rparr>"]
    Validate_conflicting_credentials [of "\<lparr>BackOffConfig = (),
      DatabaseURI = ''bolt://localhost:7687'',
      Username = ''neo4j'', Password = ''secret'', BearerToken = [],
      KerberosTicket = [], UserAgent = [], ResourceMappers = Map.empty\<rparr>"]
  by (simp add: url_Parse_default credential_count_def)

text \<open>
  \<^bold>\<open>C2.\<close> \<^verbatim>\<open>Validate\<close> counts three credential fields: the username, the bearer
  token and the kerberos ticket. Every Config in which more than one of them is
  non-empty is reported as an error, and a Config that \<^verbatim>\<open>Validate\<close> accepts has at
  most one of them non-empty. The password is not among the fields read: below, a
  non-empty password together with a bearer token and an empty username is accepted.
\<close>

theorem Validate_rejects_mixed_methods:
  "(1 < credential_count cfg \<longrightarrow> Validate cfg \<noteq> None)
   \<and> (Validate cfg = None \<longrightarrow> credential_count cfg \<le> 1)"
  by (auto simp: Validate_def credential_count_gt1 credential_count_le1
      split: option.splits if_splits)

theorem Validate_rejects_mixed_methods_witness:
  "1 < credential_count \<lparr>BackOffConfig = (), DatabaseURI = ''bolt://localhost:7687'',
      Username = [], Password = [], BearerToken = ''token'',
      KerberosTicket = ''ticket'', UserAgent = [], ResourceMappers = Map.empty\<rparr>
   \<and> Validate \<lparr>BackOffConfig = (), DatabaseURI = ''bolt://localhost:7687'',
      Username = [], Password = [], BearerToken = ''token'',
      KerberosTicket = ''ticket'', UserAgent = [], ResourceMappers = Map.empty\<rparr> \<noteq> None"
  using Validate_rejects_mixed_methods [of "\<lparr>BackOffConfig = (),
      DatabaseURI = ''bolt://localhost:7687'',
      Username = [], Password = [], BearerToken = ''token'',
      KerberosTicket = ''ticket'', UserAgent = [], ResourceMappers = Map.empty\<rparr>"]
  by (simp add: credential_count_def)

theorem Validate_password_counterexample:
  "Password \<lparr>BackOffConfig = (), DatabaseURI = ''bolt://localhost:7687'',
      Username = [], Password = ''secret'', BearerToken = ''token'',
      KerberosTicket = [], UserAgent = [], ResourceMappers = Map.empty\<rparr> \<noteq> []
   \<and> BearerToken \<lparr>BackOffConfig = (), DatabaseURI = ''bolt://localhost:7687'',
      Username = [], Password = ''secret'', BearerToken = ''token'',
      KerberosTicket = [], UserAgent = [], ResourceMappers = Map.empty\<rparr> \<noteq> []
   \<and> Validate \<lparr>BackOffConfig = (), DatabaseURI = ''bolt://localhost:7687'',
      Username = [], Password = ''secret'', BearerToken = ''token'',
      KerberosTicket = [], UserAgent = [], ResourceMappers = Map.empty\<rparr> = None"
  by (simp add: Validate_def url_Parse_default)

text \<open>
  \<^bold>\<open>C10.\<close> The result of \<^verbatim>\<open>Validate\<close> does not depend on the password: two Configs
  that differ in the password only get the same outcome.
\<close>

theorem Validate_password_independent:
  "Validate (cfg\<lparr>Password := p\<rparr>) = Validate cfg"
  by (simp add: Validate_def)

theorem Validate_password_independent_witness:
  "Validate \<lparr>BackOffConfig = (), DatabaseURI = ''bolt://localhost:7687'',
      Username = ''neo4j'', Password = ''other'', BearerToken = ''token'',
      KerberosTicket = [], UserAgent = [], ResourceMappers = Map.empty\<rparr>
   = Validate \<lparr>BackOffConfig = (), DatabaseURI = ''bolt://localhost:7687'',
      Username = ''neo4j'', Password = ''secret'', BearerToken = ''token'',
      KerberosTicket = [], UserAgent = [], ResourceMappers = Map.empty\<rparr>
   \<and> Validate \<lparr>BackOffConfig = (), DatabaseURI = ''bolt://localhost:7687'',
      Username = ''neo4j'', Password = ''other'', BearerToken = ''token'',
      KerberosTicket = [], UserAgent = [], ResourceMappers = Map.empty\<rparr>
     = Some errMultipleAuthMethod"
  using Validate_password_independent [where cfg = "\<lparr>BackOffConfig = (),
      DatabaseURI = ''bolt://localhost:7687'',
      Username = ''neo4j'', Password = ''secret'', BearerToken = ''token'',
      KerberosTicket = [], UserAgent = [], ResourceMappers = Map.empty\<rparr>" and p = "''other''"]
  by (simp add: Validate_def url_Parse_default)

lemma run_state_load: "run_state (load field) w = (field (receiver w), w)"
  by (simp add: load_def)

lemma store_changes_receiver:
  "receiver (snd (run_state (store assign) w)) = assign (receiver w)"
  by (simp add: store_def)

lemma dial_changes_dialled:
  "dialled (snd (run_state (dial address) w)) \<noteq> dialled w"
  by (simp add: dial_def)

text \<open>
  \<^bold>\<open>C7.\<close> A call of \<^verbatim>\<open>Validate\<close> leaves the state as it was, whether it returns nil
  or an error: each field of the receiver is the same after the call, and no address
  has been added to those dialled. Its result is that of the function \<open>Validate\<close>
  on the receiver. The statements of the body are loads only; a body with a \<open>store\<close>
  that changes a field, or with a \<open>dial\<close>, ends in another state.
\<close>

theorem Validate_call_frame:
  "snd (run_state Validate_call w) = w
   \<and> fst (run_state Validate_call w) = Validate (receiver w)
   \<and> BackOffConfig (receiver (snd (run_state Validate_call w))) = BackOffConfig (receiver w)
   \<and> DatabaseURI (receiver (snd (run_state Validate_call w))) = DatabaseURI (receiver w)
   \<and> Username (receiver (snd (run_state Validate_call w))) = Username (receiver w)
   \<and> Password (receiver (snd (run_state Validate_call w))) = Password (receiver w)
   \<and> BearerToken (receiver (snd (run_state Validate_call w))) = BearerToken (receiver w)
   \<and> KerberosTicket (receiver (snd (run_state Validate_call w))) = KerberosTicket (receiver w)
   \<and> UserAgent (receiver (snd (run_state Validate_call w))) = UserAgent (receiver w)
   \<and> ResourceMappers (receiver (snd (run_state Validate_call w))) = ResourceMappers (receiver w)
   \<and> dialled (snd (run_state Validate_call w)) = dialled w"
proof -
  have "run_state Validate_call w = (Validate (receiver w), w)"
    by (simp add: Validate_call_def Validate_def run_state_load split: option.splits)
  then show ?thesis by simp
qed

theorem Validate_call_frame_witness:
  "run_state Validate_call
     \<lparr>receiver = \<lparr>BackOffConfig = (), DatabaseURI = ''bolt://localhost:7687'',
        Username = ''neo4j'', Password = ''secret'', BearerToken = ''token'',
        KerberosTicket = [], UserAgent = [], ResourceMappers = Map.empty\<rparr>,
      dialled = []\<rparr>
   = (Some errMultipleAuthMethod,
      \<lparr>receiver = \<lparr>BackOffConfig = (), DatabaseURI = ''bolt://localhost:7687'',
        Username = ''neo4j'', Password = ''secret'', BearerToken = ''token'',
        KerberosTicket = [], UserAgent = [], ResourceMappers = Map.empty\<rparr>,
      dialled = []\<rparr>)"
  using Validate_call_frame [of "\<lparr>receiver = \<lparr>BackOffConfig = (),
        DatabaseURI = ''bolt://localhost:7687'',
        Username = ''neo4j'', Password = ''secret'', BearerToken = ''token'',
        KerberosTicket = [], UserAgent = [], ResourceMappers = Map.empty\<rparr>,
      dialled = []\<rparr>"]
  by (simp add: prod_eq_iff Validate_def url_Parse_default)

text \<open>
  \<^bold>\<open>C8.\<close> The default database URI is \<^verbatim>\<open>bolt://localhost:7687\<close> and the default user
  agent is \<^verbatim>\<open>opentelemetrycollector.cyphergraphexporter\<close>.
\<close>

theorem default_constants:
  "defaultDatabaseURI = ''bolt://localhost:7687''
   \<and> defaultUserAgent = ''opentelemetrycollector.cyphergraphexporter''"
  by (simp add: defaultDatabaseURI_def defaultUserAgent_def)

text \<open>
  \<^bold>\<open>C9.\<close> \<^verbatim>\<open>Validate\<close> accepts a Config whose database URI is the empty string, when
  at most one of the username, the bearer token and the kerberos ticket is non-empty.
\<close>

theorem Validate_empty_uri:
  assumes "DatabaseURI cfg = []" and "credential_count cfg \<le> 1"
  shows "Validate cfg = None"
proof -
  have "\<not> 1 < credential_count cfg" using assms(2) by simp
  then show ?thesis using assms(1) by (simp add: Validate_parsed url_Parse_empty)
qed

theorem Validate_empty_uri_witness:
  "DatabaseURI \<lparr>BackOffConfig = (), DatabaseURI = [],
      Username = ''neo4j'', Password = ''secret'', BearerToken = [],
      KerberosTicket = [], UserAgent = [], ResourceMappers = Map.empty\<rparr> = []
   \<and> credential_count \<lparr>BackOffConfig = (), DatabaseURI = [],
      Username = ''neo4j'', Password = ''secret'', BearerToken = [],
      KerberosTicket = [], UserAgent = [], ResourceMappers = Map.empty\<rparr> \<le> 1
   \<and> Validate \<lparr>BackOffConfig = (), DatabaseURI = [],
      Username = ''neo4j'', Password = ''secret'', BearerToken = [],
      KerberosTicket = [], UserAgent = [], ResourceMappers = Map.empty\<rparr> = None"
  using Validate_empty_uri [of "\<lparr>BackOffConfig = (), DatabaseURI = [],
      Username = ''neo4j'', Password = ''secret'', BearerToken = [],
      KerberosTicket = [], UserAgent = [], ResourceMappers = Map.empty\<rparr>"]
  by (simp add: credential_count_def)

subsection \<open>The default resource mappers\<close>

text \<open>
  \<^bold>\<open>C4.\<close> The table of default mappers has exactly 8 entries, under the labels
  service, container, container.image, host, deployment, k8s.cluster, k8s.node and
  k8s.pod, and the \<^verbatim>\<open>LabelID\<close> of each entry is the attribute key listed.
\<close>

theorem defaultResourcesMappers_table:
  "length defaultResourcesMappers = 8
   \<and> distinct (map fst defaultResourcesMappers)
   \<and> dom (map_of defaultResourcesMappers) =
       {''service'', ''container'', ''container.image'', ''host'', ''deployment'',
        ''k8s.cluster'', ''k8s.node'', ''k8s.pod''}
   \<and> card (dom (map_of defaultResourcesMappers)) = 8
   \<and> map (\<lambda>(label, m). (label, LabelID m)) defaultResourcesMappers =
       [(''service'', ''service.name''), (''container'', ''container.id''),
        (''container.image'', ''container.image.id''), (''host'', ''host.id''),
        (''deployment'', ''deployment.environment''), (''k8s.cluster'', ''k8s.cluster.uid''),
        (''k8s.node'', ''k8s.node.name''), (''k8s.pod'', ''k8s.pod.uid'')]
   \<and> map (\<lambda>(label, m). LabelID m) defaultResourcesMappers =
       [ServiceNameKey, ContainerIDKey, ContainerImageIDKey, HostIDKey,
        DeploymentEnvironmentKey, K8SClusterUIDKey, K8SNodeNameKey, K8SPodUIDKey]
   \<and> map_option LabelID (map_of defaultResourcesMappers ''service'') = Some ServiceNameKey
   \<and> ServiceNameKey = ''service.name''"
  by (simp add: defaultResourcesMappers_def ServiceNameKey_def ContainerIDKey_def
      ContainerImageIDKey_def HostIDKey_def DeploymentEnvironmentKey_def K8SClusterUIDKey_def
      K8SNodeNameKey_def K8SPodUIDKey_def)

subsection \<open>The database URI\<close>

lemma HasPrefix_single: "HasPrefix (a # s) [c] = (a = c)"
  by (simp add: HasPrefix_def)

lemma Index_char_None: "c \<notin> set s \<Longrightarrow> Index s [c] = None"
  by (induction s) (auto simp: HasPrefix_single)

lemma Index_char_append:
  "c \<notin> set xs \<Longrightarrow> Index (xs @ c # ys) [c] = Some (length xs)"
  by (induction xs) (auto simp: HasPrefix_single)

lemma LastIndex_None: "c \<notin> set s \<Longrightarrow> LastIndex s c = None"
  by (simp add: LastIndex_def Index_char_None)

lemma LastIndex_append:
  "c \<notin> set ys \<Longrightarrow> LastIndex (xs @ c # ys) c = Some (length xs)"
  using Index_char_append [of c "rev ys" "rev xs"] by (simp add: LastIndex_def)

lemma Cut_absent: "c \<notin> set s \<Longrightarrow> Cut s c = (s, [], False)"
  by (simp add: Cut_def Index_char_None)

lemma Count_absent: "c \<notin> set s \<Longrightarrow> Count s c = 0"
  by (induction s) (auto simp: Count_def)

lemma isalnum_range:
  "isalnum c \<Longrightarrow> 48 \<le> (of_char c :: nat) \<and> (of_char c :: nat) \<le> 122"
  unfolding isalnum_def less_eq_char_def by simp arith

lemma isalnum_cases:
  "isalnum c \<Longrightarrow>
   \<not> c < CHR '' '' \<and> c < CHR 0x80 \<and> c \<noteq> CHR 0x7F \<and> c \<notin> set ''%+#?/@[:''"
  using isalnum_range [of c] by (auto simp: less_char_def isalnum_def)

lemma isalnum_shouldEscape: "isalnum c \<Longrightarrow> \<not> shouldEscape c mode"
  by (simp add: shouldEscape_def)

lemma hostname_char_ok:
  assumes "hostname_char c"
  shows "c \<notin> set ''%+#?/@['' \<and> \<not> c < CHR '' '' \<and> c \<noteq> CHR 0x7F \<and> c < CHR 0x80
         \<and> \<not> shouldEscape c encodeHost"
proof (cases "isalnum c")
  case True
  then show ?thesis using isalnum_cases [of c] by (simp add: isalnum_shouldEscape)
next
  case False
  then have "c = CHR ''.'' \<or> c = CHR ''-''" using assms by (simp add: hostname_char_def)
  then show ?thesis by (auto simp: shouldEscape_def isalnum_def)
qed

lemma isdigit_hostname_char: "isdigit c \<Longrightarrow> hostname_char c"
  by (auto simp: isdigit_def isalnum_def hostname_char_def)

lemma isdigit_not_colon: "isdigit c \<Longrightarrow> c \<noteq> CHR '':''"
  by (auto simp: isdigit_def)

lemma colon_ok:
  "CHR '':'' \<notin> set ''%+#?/@['' \<and> \<not> CHR '':'' < CHR '' '' \<and> CHR '':'' \<noteq> CHR 0x7F
   \<and> CHR '':'' < CHR 0x80 \<and> \<not> shouldEscape CHR '':'' encodeHost"
  by (simp add: shouldEscape_def isalnum_def)

lemma authority_chars:
  assumes "list_all hostname_char host" and "list_all isdigit port"
    and "c \<in> set (host @ CHR '':'' # port)"
  shows "c \<notin> set ''%+#?/@['' \<and> \<not> c < CHR '' '' \<and> c \<noteq> CHR 0x7F \<and> c < CHR 0x80
         \<and> \<not> shouldEscape c encodeHost"
proof -
  have "c \<in> set host \<or> c = CHR '':'' \<or> c \<in> set port"
    using assms(3) by auto
  then consider "hostname_char c" | "c = CHR '':''"
    using assms(1,2) isdigit_hostname_char unfolding list_all_iff by blast
  then show ?thesis
  proof cases
    case 1
    then show ?thesis by (rule hostname_char_ok)
  next
    case 2
    then show ?thesis using colon_ok by blast
  qed
qed

lemma authority_absent:
  assumes "list_all hostname_char host" and "list_all isdigit port"
    and "x \<in> set ''%+#?/@[''"
  shows "x \<notin> set (host @ CHR '':'' # port)"
  using authority_chars [OF assms(1,2), of x] assms(3) by blast

lemma unescape_host_None:
  "list_all (\<lambda>c. c \<noteq> CHR ''%'' \<and> \<not> shouldEscape c encodeHost) s \<Longrightarrow>
   unescape s encodeHost = None"
  by (induction s) auto

lemma authority_unescape:
  assumes "list_all hostname_char host" and "list_all isdigit port"
  shows "unescape (host @ CHR '':'' # port) encodeHost = None"
proof (rule unescape_host_None)
  show "list_all (\<lambda>c. c \<noteq> CHR ''%'' \<and> \<not> shouldEscape c encodeHost)
          (host @ CHR '':'' # port)"
    unfolding list_all_iff
  proof
    fix c assume "c \<in> set (host @ CHR '':'' # port)"
    from authority_chars [OF assms this]
    show "c \<noteq> CHR ''%'' \<and> \<not> shouldEscape c encodeHost"
      by simp
  qed
qed

lemma parseHost_host_port:
  assumes "list_all hostname_char host" and "list_all isdigit port"
  shows "parseHost (host @ CHR '':'' # port) = None"
proof -
  have colon: "CHR '':'' \<notin> set port"
    using assms(2) isdigit_not_colon unfolding list_all_iff by blast
  have "hd (host @ CHR '':'' # port) \<in> set (host @ CHR '':'' # port)"
    by (rule hd_in_set) simp
  from authority_chars [OF assms this]
  have "hd (host @ CHR '':'' # port) \<noteq> CHR ''[''" by simp
  then have nobracket: "\<not> HasPrefix (host @ CHR '':'' # port) ''[''"
    by (cases host) (simp_all add: HasPrefix_def)
  have port: "validOptionalPort (CHR '':'' # port)"
    using assms(2) by (simp add: validOptionalPort_def list_all_iff isdigit_def)
  show ?thesis
    using nobracket port
    by (simp add: parseHost_def LastIndex_append [OF colon] authority_unescape [OF assms])
qed

lemma parseAuthority_host_port:
  assumes "list_all hostname_char host" and "list_all isdigit port"
  shows "parseAuthority (host @ CHR '':'' # port) = None"
proof -
  have "CHR ''@'' \<notin> set (host @ CHR '':'' # port)"
    by (rule authority_absent [OF assms]) simp
  then show ?thesis
    by (simp add: parseAuthority_def LastIndex_None parseHost_host_port [OF assms])
qed

lemma getScheme_supported:
  "scheme \<in> set supported_schemes \<Longrightarrow>
   getScheme (scheme @ CHR '':'' # rest) = Inr (scheme, rest)"
  by (auto simp: supported_schemes_def getScheme_def)

lemma supported_scheme_chars:
  "scheme \<in> set supported_schemes \<Longrightarrow>
   scheme \<noteq> [] \<and> \<not> stringContainsCTLByte scheme \<and> CHR ''#'' \<notin> set scheme"
  by (auto simp: supported_schemes_def stringContainsCTLByte_def)

lemma stringContainsCTLByte_append:
  "stringContainsCTLByte (xs @ ys) = (stringContainsCTLByte xs \<or> stringContainsCTLByte ys)"
  by (simp add: stringContainsCTLByte_def list_ex_iff bex_Un)

lemma parse_host_port:
  assumes "scheme \<in> set supported_schemes"
    and "list_all hostname_char host" and "list_all isdigit port"
  shows "parse (scheme @ ''://'' @ host @ '':'' @ port) False = None"
proof -
  let ?auth = "host @ CHR '':'' # port"
  let ?rest = "CHR ''/'' # CHR ''/'' # ?auth"
  have noctl: "\<not> stringContainsCTLByte ?auth"
    unfolding stringContainsCTLByte_def list_ex_iff
    using authority_chars [OF assms(2,3)] by blast
  have ctl: "\<not> stringContainsCTLByte (scheme @ CHR '':'' # ?rest)"
    using supported_scheme_chars [OF assms(1)] noctl
    by (simp add: stringContainsCTLByte_append) (simp add: stringContainsCTLByte_def)
  have star: "scheme @ CHR '':'' # ?rest \<noteq> ''*''"
    using supported_scheme_chars [OF assms(1)] by (cases scheme) simp_all
  have noq: "CHR ''?'' \<notin> set ?rest"
    using authority_absent [OF assms(2,3), of "CHR ''?''"] by simp
  have noslash: "CHR ''/'' \<notin> set ?auth"
    by (rule authority_absent [OF assms(2,3)]) simp
  have count: "Count ?rest CHR ''?'' = 0"
    by (rule Count_absent [OF noq])
  have cut: "Cut ?rest CHR ''?'' = (?rest, [], False)"
    by (rule Cut_absent [OF noq])
  show ?thesis
    using ctl star supported_scheme_chars [OF assms(1)]
    by (simp add: parse_def getScheme_supported [OF assms(1)] count cut HasPrefix_def
        Index_char_None [OF noslash] parseAuthority_host_port [OF assms(2,3)] setPath_def
        del: set_append)
qed

lemma url_Parse_host_port:
  assumes "scheme \<in> set supported_schemes"
    and "list_all hostname_char host" and "list_all isdigit port"
  shows "url_Parse (scheme @ ''://'' @ host @ '':'' @ port) = None"
proof -
  have "CHR ''#'' \<notin> set (host @ CHR '':'' # port)"
    by (rule authority_absent [OF assms(2,3)]) simp
  then have "CHR ''#'' \<notin> set (scheme @ ''://'' @ host @ '':'' @ port)"
    using supported_scheme_chars [OF assms(1)] by simp
  then show ?thesis
    using parse_host_port [OF assms]
    by (simp add: url_Parse_def Cut_absent del: set_append)
qed

lemma url_Parse_error_shape:
  "url_Parse s = Some e \<Longrightarrow> \<exists>u err. e = url_Error ''parse'' u err"
  by (auto simp: url_Parse_def split: prod.splits option.splits if_splits)

lemma url_Parse_missing_scheme:
  "url_Parse ''://localhost:7687'' =
     Some (url_Error ''parse'' ''://localhost:7687'' ErrMissingProtocolScheme)"
  by code_simp

lemma url_Parse_not_a_uri: "url_Parse ''not a uri'' = None"
  by code_simp

text \<open>
  \<^bold>\<open>C3.\<close> \<^verbatim>\<open>Validate\<close> returns an error for a database URI exactly when
  \<^verbatim>\<open>url.Parse\<close> rejects it, and the error is the one \<^verbatim>\<open>url.Parse\<close> built (a
  \<^verbatim>\<open>*url.Error\<close> of operation \<^verbatim>\<open>parse\<close>). For each of the schemes bolt, bolt+s,
  bolt+ssc, neo4j, neo4j+s and neo4j+ssc, every address \<^verbatim>\<open>scheme://host:port\<close> with a
  host name of letters, digits, dots and hyphens and a port of digits is accepted
  when at most one credential field is non-empty. \<^verbatim>\<open>url.Parse\<close> is lenient: below,
  the string \<^verbatim>\<open>not a uri\<close>, which is no well-formed URI, is accepted.
\<close>

theorem Validate_database_uri:
  "(url_Parse (DatabaseURI cfg) = Some e \<longrightarrow> Validate cfg = Some e)
   \<and> ((\<exists>u err. Validate cfg = Some (url_Error ''parse'' u err))
        = (url_Parse (DatabaseURI cfg) \<noteq> None))
   \<and> (scheme \<in> set supported_schemes \<and> list_all hostname_char host \<and> list_all isdigit port
        \<and> DatabaseURI cfg = scheme @ ''://'' @ host @ '':'' @ port
        \<and> credential_count cfg \<le> 1
       \<longrightarrow> Validate cfg = None)"
proof (intro conjI impI)
  assume "url_Parse (DatabaseURI cfg) = Some e"
  then show "Validate cfg = Some e" by (rule Validate_unparsed)
next
  show "(\<exists>u err. Validate cfg = Some (url_Error ''parse'' u err))
        = (url_Parse (DatabaseURI cfg) \<noteq> None)"
  proof (cases "url_Parse (DatabaseURI cfg)")
    case None
    then show ?thesis by (simp add: Validate_def)
  next
    case (Some e)
    then show ?thesis
      using url_Parse_error_shape [OF Some] by (auto simp: Validate_def)
  qed
next
  assume a: "scheme \<in> set supported_schemes \<and> list_all hostname_char host
      \<and> list_all isdigit port
      \<and> DatabaseURI cfg = scheme @ ''://'' @ host @ '':'' @ port
      \<and> credential_count cfg \<le> 1"
  then have "url_Parse (DatabaseURI cfg) = None"
    using url_Parse_host_port [of scheme host port] by simp
  moreover have "\<not> 1 < credential_count cfg" using a by simp
  ultimately show "Validate cfg = None"
    by (simp add: Validate_parsed)
qed

theorem Validate_database_uri_witness:
  "Validate \<lparr>BackOffConfig = (), DatabaseURI = ''://localhost:7687'',
      Username = ''neo4j'', Password = ''secret'', BearerToken = [],
      KerberosTicket = [], UserAgent = [], ResourceMappers = Map.empty\<rparr>
     = Some (url_Error ''parse'' ''://localhost:7687'' ErrMissingProtocolScheme)
   \<and> ''neo4j+s'' \<in> set supported_schemes
   \<and> list_all hostname_char ''localhost'' \<and> list_all isdigit ''7687''
   \<and> Validate \<lparr>BackOffConfig = (), DatabaseURI = ''neo4j+s://localhost:7687'',
      Username = ''neo4j'', Password = ''secret'', BearerToken = [],
      KerberosTicket = [], UserAgent = [], ResourceMappers = Map.empty\<rparr> = None"
  using
    Validate_database_uri [of "\<lparr>BackOffConfig = (), DatabaseURI = ''://localhost:7687'',
      Username = ''neo4j'', Password = ''secret'', BearerToken = [],
      KerberosTicket = [], UserAgent = [], ResourceMappers = Map.empty\<rparr>"
      "url_Error ''parse'' ''://localhost:7687'' ErrMissingProtocolScheme"]
    Validate_database_uri [of "\<lparr>BackOffConfig = (),
      DatabaseURI = ''neo4j+s://localhost:7687'',
      Username = ''neo4j'', Password = ''secret'', BearerToken = [],
      KerberosTicket = [], UserAgent = [], ResourceMappers = Map.empty\<rparr>" _
      "''neo4j+s''" "''localhost''" "''7687''"]
  by (simp add: url_Parse_missing_scheme supported_schemes_def hostname_char_def isalnum_def
      isdigit_def credential_count_def)

theorem Validate_lenient_uri_counterexample:
  "Validate \<lparr>BackOffConfig = (), DatabaseURI = ''not a uri'',
      Username = ''neo4j'', Password = ''secret'', BearerToken = [],
      KerberosTicket = [], UserAgent = [], ResourceMappers = Map.empty\<rparr> = None"
  by (simp add: Validate_def url_Parse_not_a_uri)

section \<open>Properties of the resource mapper registry\<close>

lemma count_list_distinct:
  "distinct xs \<Longrightarrow> count_list xs x = (if x \<in> set xs then 1 else 0)"
  by (induction xs) auto

lemma ApplicableMappers_distinct:
  "distinct (map fst registry) \<Longrightarrow> distinct (ApplicableMappers registry resource)"
  by (simp add: ApplicableMappers_def distinct_map)

lemma ApplicableMappers_set:
  "set (ApplicableMappers registry resource) =
     {(label, m). (label, m) \<in> set registry \<and> applicable resource m}"
  by (auto simp: ApplicableMappers_def)

text \<open>
  \<^bold>\<open>C6.\<close> For every Resource and every entry of a registry (a mapping, so its labels
  are distinct), \<^verbatim>\<open>ApplicableMappers\<close> returns the pair of the entry exactly once if
  the Resource has a non-empty value for the mapper's \<^verbatim>\<open>LabelID\<close>, and does not
  return it if the Resource has no value for it. The operation is total: no case is
  an error.
\<close>

theorem ApplicableMappers_exactly_once:
  assumes "distinct (map fst registry)" and "(label, m) \<in> set registry"
  shows "((\<exists>v. resource (LabelID m) = Some v \<and> v \<noteq> []) \<longrightarrow>
            count_list (ApplicableMappers registry resource) (label, m) = 1)
       \<and> (resource (LabelID m) = None \<longrightarrow>
            count_list (ApplicableMappers registry resource) (label, m) = 0
            \<and> (label, m) \<notin> set (ApplicableMappers registry resource))"
  using assms(2)
  by (auto simp: count_list_distinct [OF ApplicableMappers_distinct [OF assms(1)]]
        ApplicableMappers_set applicable_def)

theorem ApplicableMappers_exactly_once_witness:
  "distinct (map fst defaultResourcesMappers)
   \<and> (''service'', \<lparr>LabelID = ''service.name'',
         OtherLabels = [''service.version'', ''service.instance.id'', ''service.namespace'']\<rparr>)
       \<in> set defaultResourcesMappers
   \<and> (''host'', \<lparr>LabelID = ''host.id'',
         OtherLabels = [''host.name'', ''host.image.id'', ''host.image.name'', ''host.ip'',
           ''host.type'']\<rparr>)
       \<in> set defaultResourcesMappers
   \<and> count_list (ApplicableMappers defaultResourcesMappers [''service.name'' \<mapsto> ''api''])
        (''service'', \<lparr>LabelID = ''service.name'',
         OtherLabels = [''service.version'', ''service.instance.id'', ''service.namespace'']\<rparr>)
       = 1
   \<and> count_list (ApplicableMappers defaultResourcesMappers [''service.name'' \<mapsto> ''api''])
        (''host'', \<lparr>LabelID = ''host.id'',
         OtherLabels = [''host.name'', ''host.image.id'', ''host.image.name'', ''host.ip'',
           ''host.type'']\<rparr>)
       = 0"
proof -
  have d: "distinct (map fst defaultResourcesMappers)"
    by (simp add: defaultResourcesMappers_def)
  have s: "(''service'', \<lparr>LabelID = ''service.name'',
         OtherLabels = [''service.version'', ''service.instance.id'', ''service.namespace'']\<rparr>)
       \<in> set defaultResourcesMappers"
    by (simp add: defaultResourcesMappers_def ServiceNameKey_def ServiceVersionKey_def
        ServiceInstanceIDKey_def ServiceNamespaceKey_def)
  have h: "(''host'', \<lparr>LabelID = ''host.id'',
         OtherLabels = [''host.name'', ''host.image.id'', ''host.image.name'', ''host.ip'',
           ''host.type'']\<rparr>)
       \<in> set defaultResourcesMappers"
    by (simp add: defaultResourcesMappers_def HostIDKey_def HostNameKey_def HostImageIDKey_def
        HostImageNameKey_def HostIPKey_def HostTypeKey_def)
  show ?thesis
    using d s h
      ApplicableMappers_exactly_once [OF d s, of "[''service.name'' \<mapsto> ''api'']"]
      ApplicableMappers_exactly_once [OF d h, of "[''service.name'' \<mapsto> ''api'']"]
    by simp
qed

section \<open>Properties of the retry loop\<close>

lemma retry_loop_transient_Cons:
  "retry_loop p e i ((d, TransientFailure) # rest) = (r, ws) \<Longrightarrow>
     (MaxElapsedTime p < e + d \<and> r = ReportTerminalFailure \<and> ws = [])
     \<or> (e + d \<le> MaxElapsedTime p
         \<and> (\<exists>ws'. retry_loop p (e + d + min i (MaxInterval p)) (i * Multiplier p) rest = (r, ws')
                \<and> ws = min i (MaxInterval p) # ws'))"
  by (auto split: prod.splits if_splits)

lemma retry_loop_shape:
  "retry_loop p e i (map (\<lambda>d. (d, TransientFailure)) ds) = (r, ws) \<Longrightarrow>
   length ws \<le> length ds
   \<and> (r = ReportTerminalFailure) = (length ws < length ds)
   \<and> (r = Retrying) = (length ws = length ds)
   \<and> r \<noteq> Succeeded"
proof (induction ds arbitrary: e i r ws)
  case Nil
  then show ?case by auto
next
  case (Cons d ds)
  from Cons.prems(1) have
    "(MaxElapsedTime p < e + d \<and> r = ReportTerminalFailure \<and> ws = [])
     \<or> (\<exists>ws'. retry_loop p (e + d + min i (MaxInterval p)) (i * Multiplier p)
                 (map (\<lambda>d. (d, TransientFailure)) ds) = (r, ws')
                \<and> ws = min i (MaxInterval p) # ws')"
    using retry_loop_transient_Cons [of p e i d "map (\<lambda>d. (d, TransientFailure)) ds" r ws]
    by auto
  then show ?case
  proof
    assume "MaxElapsedTime p < e + d \<and> r = ReportTerminalFailure \<and> ws = []"
    then show ?thesis by simp
  next
    assume "\<exists>ws'. retry_loop p (e + d + min i (MaxInterval p)) (i * Multiplier p)
                 (map (\<lambda>d. (d, TransientFailure)) ds) = (r, ws')
                \<and> ws = min i (MaxInterval p) # ws'"
    then obtain ws' where
      rec: "retry_loop p (e + d + min i (MaxInterval p)) (i * Multiplier p)
                 (map (\<lambda>d. (d, TransientFailure)) ds) = (r, ws')"
      and ws: "ws = min i (MaxInterval p) # ws'" by blast
    from Cons.IH [OF rec] show ?thesis using ws by simp
  qed
qed

lemma retry_loop_sleeps:
  "retry_loop p e i (map (\<lambda>d. (d, TransientFailure)) ds) = (r, ws) \<Longrightarrow> k < length ws \<Longrightarrow>
   ws ! k = min (i * Multiplier p ^ k) (MaxInterval p)
   \<and> e + sum_list (take (Suc k) ds) + sum_list (take k ws) \<le> MaxElapsedTime p"
proof (induction ds arbitrary: e i r ws k)
  case Nil
  then show ?case by simp
next
  case (Cons d ds)
  from Cons.prems have
    "(MaxElapsedTime p < e + d \<and> r = ReportTerminalFailure \<and> ws = [])
     \<or> (e + d \<le> MaxElapsedTime p
         \<and> (\<exists>ws'. retry_loop p (e + d + min i (MaxInterval p)) (i * Multiplier p)
                 (map (\<lambda>d. (d, TransientFailure)) ds) = (r, ws')
                \<and> ws = min i (MaxInterval p) # ws'))"
    using retry_loop_transient_Cons [of p e i d "map (\<lambda>d. (d, TransientFailure)) ds" r ws]
    by simp
  with Cons.prems(2) obtain ws' where le: "e + d \<le> MaxElapsedTime p"
    and rec: "retry_loop p (e + d + min i (MaxInterval p)) (i * Multiplier p)
                 (map (\<lambda>d. (d, TransientFailure)) ds) = (r, ws')"
    and ws: "ws = min i (MaxInterval p) # ws'"
    by auto
  show ?case
  proof (cases k)
    case 0
    then show ?thesis using ws le by simp
  next
    case (Suc j)
    then have "j < length ws'" using Cons.prems(2) ws by simp
    from Cons.IH [OF rec this] show ?thesis using ws Suc by (simp add: mult.assoc add.assoc)
  qed
qed

lemma retry_loop_stop_reason:
  "retry_loop p e i (map (\<lambda>d. (d, TransientFailure)) ds) = (r, ws) \<Longrightarrow>
   length ws < length ds \<Longrightarrow>
   MaxElapsedTime p < e + sum_list (take (Suc (length ws)) ds) + sum_list ws"
proof (induction ds arbitrary: e i r ws)
  case Nil
  then show ?case by simp
next
  case (Cons d ds)
  from Cons.prems(1) have
    "(MaxElapsedTime p < e + d \<and> r = ReportTerminalFailure \<and> ws = [])
     \<or> (\<exists>ws'. retry_loop p (e + d + min i (MaxInterval p)) (i * Multiplier p)
                 (map (\<lambda>d. (d, TransientFailure)) ds) = (r, ws')
                \<and> ws = min i (MaxInterval p) # ws')"
    using retry_loop_transient_Cons [of p e i d "map (\<lambda>d. (d, TransientFailure)) ds" r ws]
    by auto
  then show ?case
  proof
    assume "MaxElapsedTime p < e + d \<and> r = ReportTerminalFailure \<and> ws = []"
    then show ?thesis by simp
  next
    assume "\<exists>ws'. retry_loop p (e + d + min i (MaxInterval p)) (i * Multiplier p)
                 (map (\<lambda>d. (d, TransientFailure)) ds) = (r, ws')
                \<and> ws = min i (MaxInterval p) # ws'"
    then obtain ws' where
      rec: "retry_loop p (e + d + min i (MaxInterval p)) (i * Multiplier p)
                 (map (\<lambda>d. (d, TransientFailure)) ds) = (r, ws')"
      and ws: "ws = min i (MaxInterval p) # ws'" by blast
    have "length ws' < length ds" using Cons.prems(2) ws by simp
    from Cons.IH [OF rec this] show ?thesis using ws by (simp add: add.assoc add.left_commute)
  qed
qed

lemma retry_loop_stops:
  "0 < i \<Longrightarrow> 0 < Multiplier p \<Longrightarrow> 0 < MaxInterval p \<Longrightarrow> ds \<noteq> [] \<Longrightarrow>
   MaxElapsedTime p + 1 < e + length ds \<Longrightarrow>
   fst (retry_loop p e i (map (\<lambda>d. (d, TransientFailure)) ds)) = ReportTerminalFailure"
proof (induction ds arbitrary: e i)
  case Nil
  then show ?case by simp
next
  case (Cons d ds)
  show ?case
  proof (cases "e + d > MaxElapsedTime p")
    case True
    then show ?thesis by simp
  next
    case False
    have w: "0 < min i (MaxInterval p)" using Cons.prems by simp
    have "fst (retry_loop p (e + d + min i (MaxInterval p)) (i * Multiplier p)
             (map (\<lambda>d. (d, TransientFailure)) ds)) = ReportTerminalFailure"
      using Cons.prems False w by (intro Cons.IH) auto
    then show ?thesis using False by (simp add: case_prod_beta)
  qed
qed

lemma retry_loop_terminal:
  "retry_loop p e i (map (\<lambda>d. (d, TransientFailure)) ds @ (d, TerminalFailure) # rest)
     = (ReportTerminalFailure, snd (retry_loop p e i (map (\<lambda>d. (d, TransientFailure)) ds)))"
  by (induction ds arbitrary: e i) (simp_all add: case_prod_beta)

lemma retry_loop_success:
  "retry_loop p e i (map (\<lambda>d. (d, TransientFailure)) ds @ (d, Success) # rest)
     = (if fst (retry_loop p e i (map (\<lambda>d. (d, TransientFailure)) ds)) = Retrying
        then Succeeded else ReportTerminalFailure,
        snd (retry_loop p e i (map (\<lambda>d. (d, TransientFailure)) ds)))"
  by (induction ds arbitrary: e i) (simp_all add: case_prod_beta)

lemma retry_example:
  "retry \<lparr>InitialInterval = 1, Multiplier = 2, MaxInterval = 8, MaxElapsedTime = 10\<rparr>
     (transient_failures (5 + n)) = (ReportTerminalFailure, [1, 2, 4, 8])"
  by (simp add: retry_def transient_failures_def replicate_add eval_nat_numeral)

text \<open>
  \<^bold>\<open>C5.\<close> For every policy and every run of consecutive transient failures, with
  any attempt durations: the loop sleeps after the \<open>k\<close>-th failure (from 0) only if
  the elapsed time at that failure, the durations of the attempts made plus the
  sleeps made, does not exceed the maximum, and the sleep is the initial interval
  times the multiplier to the power \<open>k\<close>, capped at the maximum interval; the loop
  reports terminal failure exactly when it stops before the attempts are used up,
  and then the elapsed time at that failure exceeds the maximum. A terminal failure
  after any number of transient failures is reported at once: no sleep is added and
  the attempts after it are not made. A success ends the loop likewise. With
  positive intervals and multiplier the loop stops within \<open>MaxElapsedTime + 2\<close>
  failures. With initial interval 1, multiplier 2, maximum interval 8 and maximum
  elapsed time 10, and attempts that take no time, the sleeps are 1, 2, 4, 8: the
  elapsed time is then 15, over 10, and the fifth failure is reported as terminal.
\<close>

theorem retry_backoff:
  "(retry p (map (\<lambda>d. (d, TransientFailure)) ds) = (r, sleeps) \<longrightarrow>
      r \<noteq> Succeeded
      \<and> length sleeps \<le> length ds
      \<and> (r = ReportTerminalFailure) = (length sleeps < length ds)
      \<and> (r = Retrying) = (length sleeps = length ds)
      \<and> (\<forall>k < length sleeps.
            sleeps ! k = min (InitialInterval p * Multiplier p ^ k) (MaxInterval p)
            \<and> sum_list (take (Suc k) ds) + sum_list (take k sleeps) \<le> MaxElapsedTime p)
      \<and> (length sleeps < length ds \<longrightarrow>
            MaxElapsedTime p < sum_list (take (Suc (length sleeps)) ds) + sum_list sleeps))
   \<and> retry p (map (\<lambda>d. (d, TransientFailure)) ds @ (d, TerminalFailure) # rest)
       = (ReportTerminalFailure, snd (retry p (map (\<lambda>d. (d, TransientFailure)) ds)))
   \<and> retry p (map (\<lambda>d. (d, TransientFailure)) ds @ (d, Success) # rest)
       = (if fst (retry p (map (\<lambda>d. (d, TransientFailure)) ds)) = Retrying
          then Succeeded else ReportTerminalFailure,
          snd (retry p (map (\<lambda>d. (d, TransientFailure)) ds)))
   \<and> (0 < InitialInterval p \<and> 0 < Multiplier p \<and> 0 < MaxInterval p
        \<and> MaxElapsedTime p + 1 < length ds \<longrightarrow>
        fst (retry p (map (\<lambda>d. (d, TransientFailure)) ds)) = ReportTerminalFailure)
   \<and> retry \<lparr>InitialInterval = 1, Multiplier = 2, MaxInterval = 8, MaxElapsedTime = 10\<rparr>
        (transient_failures (5 + n)) = (ReportTerminalFailure, [1, 2, 4, 8])"
proof (intro conjI impI allI)
  assume run: "retry p (map (\<lambda>d. (d, TransientFailure)) ds) = (r, sleeps)"
  then have loop: "retry_loop p 0 (InitialInterval p) (map (\<lambda>d. (d, TransientFailure)) ds)
      = (r, sleeps)"
    by (simp add: retry_def)
  from retry_loop_shape [OF loop]
  show "r \<noteq> Succeeded" and "length sleeps \<le> length ds"
    and "(r = ReportTerminalFailure) = (length sleeps < length ds)"
    and "(r = Retrying) = (length sleeps = length ds)"
    by simp_all
  {
    fix k assume k: "k < length sleeps"
    from retry_loop_sleeps [OF loop k]
    show "sleeps ! k = min (InitialInterval p * Multiplier p ^ k) (MaxInterval p)"
      and "sum_list (take (Suc k) ds) + sum_list (take k sleeps) \<le> MaxElapsedTime p"
      by simp_all
  }
  {
    assume "length sleeps < length ds"
    from retry_loop_stop_reason [OF loop this]
    show "MaxElapsedTime p < sum_list (take (Suc (length sleeps)) ds) + sum_list sleeps"
      by simp
  }
next
  show "retry p (map (\<lambda>d. (d, TransientFailure)) ds @ (d, TerminalFailure) # rest)
       = (ReportTerminalFailure, snd (retry p (map (\<lambda>d. (d, TransientFailure)) ds)))"
    unfolding retry_def by (rule retry_loop_terminal)
next
  show "retry p (map (\<lambda>d. (d, TransientFailure)) ds @ (d, Success) # rest)
       = (if fst (retry p (map (\<lambda>d. (d, TransientFailure)) ds)) = Retrying
          then Succeeded else ReportTerminalFailure,
          snd (retry p (map (\<lambda>d. (d, TransientFailure)) ds)))"
    unfolding retry_def by (rule retry_loop_success)
next
  assume a: "0 < InitialInterval p \<and> 0 < Multiplier p \<and> 0 < MaxInterval p
      \<and> MaxElapsedTime p + 1 < length ds"
  then have "ds \<noteq> []" by auto
  with a show "fst (retry p (map (\<lambda>d. (d, TransientFailure)) ds)) = ReportTerminalFailure"
    using retry_loop_stops [of "InitialInterval p" p ds 0] by (simp add: retry_def)
next
  show "retry \<lparr>InitialInterval = 1, Multiplier = 2, MaxInterval = 8, MaxElapsedTime = 10\<rparr>
      (transient_failures (5 + n)) = (ReportTerminalFailure, [1, 2, 4, 8])"
    by (rule retry_example)
qed

theorem retry_backoff_witness:
  "retry \<lparr>InitialInterval = 1, Multiplier = 2, MaxInterval = 8, MaxElapsedTime = 10\<rparr>
     (map (\<lambda>d. (d, TransientFailure)) [0, 0, 0, 4, 0])
     = (ReportTerminalFailure, [1, 2, 4])
   \<and> length [1 :: nat, 2, 4] < length [0 :: nat, 0, 0, 4, 0]
   \<and> [1, 2, 4] ! 2 = min (1 * 2 ^ 2) (8 :: nat)
   \<and> sum_list (take 3 [0, 0, 0, 4, 0]) + sum_list (take 2 [1, 2, 4]) \<le> (10 :: nat)
   \<and> (10 :: nat) < sum_list (take 4 [0, 0, 0, 4, 0]) + sum_list [1, 2, 4]
   \<and> retry \<lparr>InitialInterval = 1, Multiplier = 2, MaxInterval = 8, MaxElapsedTime = 10\<rparr>
       (map (\<lambda>d. (d, TransientFailure)) [0, 0, 0, 4, 0]
          @ (0, TerminalFailure) # [(0, Success)])
     = (ReportTerminalFailure, [1, 2, 4])
   \<and> retry \<lparr>InitialInterval = 1, Multiplier = 2, MaxInterval = 8, MaxElapsedTime = 10\<rparr>
       (transient_failures 5) = (ReportTerminalFailure, [1, 2, 4, 8])
   \<and> (10 :: nat) + 1 < length [0 :: nat, 0, 0, 0, 0, 0, 0, 0, 0, 0, 0, 0]
   \<and> fst (retry \<lparr>InitialInterval = 1, Multiplier = 2, MaxInterval = 8, MaxElapsedTime = 10\<rparr>
        (map (\<lambda>d. (d, TransientFailure)) [0, 0, 0, 0, 0, 0, 0, 0, 0, 0, 0, 0]))
       = ReportTerminalFailure"
  using
    retry_backoff [of
      "\<lparr>InitialInterval = 1, Multiplier = 2, MaxInterval = 8, MaxElapsedTime = 10\<rparr>"
      "[0, 0, 0, 4, 0]" ReportTerminalFailure "[1, 2, 4]" 0 "[(0, Success)]" 0]
    retry_backoff [of
      "\<lparr>InitialInterval = 1, Multiplier = 2, MaxInterval = 8, MaxElapsedTime = 10\<rparr>"
      "[0, 0, 0, 0, 0, 0, 0, 0, 0, 0, 0, 0]" ReportTerminalFailure "[1, 2, 4, 8]" 0 "[]" 0]
  by (simp add: retry_def transient_failures_def eval_nat_numeral)

end
